theory Spec2Isabelle
  imports Main
begin

section \<open>Python strings\<close>

text \<open>
  A Python \<open>str\<close> is modelled as a \<open>string\<close> whose characters are the code points
  U+0000 to U+00FF. On this range \<open>str.isdigit\<close> holds of \<open>0\<close> to \<open>9\<close> and of the
  superscripts U+00B2, U+00B3 and U+00B9; \<open>str.strip\<close> removes the characters for which
  \<open>str.isspace\<close> holds; \<open>str.lower\<close> maps \<open>A\<close> to \<open>Z\<close> and the capital letters
  U+00C0 to U+00DE (without the multiplication sign U+00D7) to their small letters.
\<close>

definition isdigit_char :: "char \<Rightarrow> bool" where
  "isdigit_char c =
     (let n = (of_char c :: nat)
      in (48 \<le> n \<and> n \<le> 57) \<or> n = 178 \<or> n = 179 \<or> n = 185)"

definition isspace_char :: "char \<Rightarrow> bool" where
  "isspace_char c =
     (let n = (of_char c :: nat)
      in (9 \<le> n \<and> n \<le> 13) \<or> (28 \<le> n \<and> n \<le> 32) \<or> n = 133 \<or> n = 160)"

definition lower_char :: "char \<Rightarrow> char" where
  "lower_char c =
     (let n = (of_char c :: nat)
      in if (65 \<le> n \<and> n \<le> 90) \<or> (192 \<le> n \<and> n \<le> 222 \<and> n \<noteq> 215)
         then char_of (n + 32) else c)"

definition lower :: "string \<Rightarrow> string" where
  "lower s = map lower_char s"

text \<open>\<open>s.isdigit()\<close>: at least one character, and every character a digit.\<close>

definition isdigit :: "string \<Rightarrow> bool" where
  "isdigit s = (s \<noteq> [] \<and> list_all isdigit_char s)"

definition strip :: "string \<Rightarrow> string" where
  "strip s = rev (dropWhile isspace_char (rev (dropWhile isspace_char s)))"

text \<open>\<open>s.replace(c, '')\<close> for a one-character \<open>c\<close>.\<close>

definition remove_char :: "char \<Rightarrow> string \<Rightarrow> string" where
  "remove_char c s = filter (\<lambda>x. x \<noteq> c) s"

text \<open>\<open>s.startswith(p)\<close> and \<open>p in s\<close>, with the pattern as first argument.\<close>

fun startswith :: "string \<Rightarrow> string \<Rightarrow> bool" where
  "startswith [] s = True"
| "startswith (p # ps) [] = False"
| "startswith (p # ps) (c # cs) = (p = c \<and> startswith ps cs)"

fun contains :: "string \<Rightarrow> string \<Rightarrow> bool" where
  "contains sub [] = (sub = [])"
| "contains sub (c # cs) = (startswith sub (c # cs) \<or> contains sub cs)"

text \<open>\<open>s.split(sep)\<close> for a one-character separator: never an empty list.\<close>

fun split :: "char \<Rightarrow> string \<Rightarrow> string list" where
  "split sep [] = [[]]"
| "split sep (c # cs) =
     (if c = sep then [] # split sep cs
      else (case split sep cs of [] \<Rightarrow> [[c]] | w # ws \<Rightarrow> (c # w) # ws))"

text \<open>\<open>sep.join(xs)\<close>.\<close>

fun join :: "string \<Rightarrow> string list \<Rightarrow> string" where
  "join sep [] = []"
| "join sep [x] = x"
| "join sep (x # y # ys) = x @ sep @ join sep (y # ys)"

section \<open>The parsed document\<close>

text \<open>
  BeautifulSoup's tree: a \<open>Tag\<close> has a name, the tokens of its \<open>class\<close> attribute (the
  empty list when it has none), its \<open>href\<close> attribute and its children; the other
  nodes are text (\<open>NavigableString\<close>) and the strings that \<open>get_text\<close> leaves out
  (\<open>Comment\<close>: comments, and the contents of \<open>script\<close>, \<open>style\<close> and \<open>template\<close>
  elements, which the parser keeps in string classes of their own). A tag is true as
  a condition whatever its contents, so \<open>if tag\<close> tests for \<open>None\<close> only.
  A document is the list of the children of the soup object.
\<close>

datatype node =
    Tag string "string list" "string option" "node list"
  | NavigableString string
  | Comment string

fun name :: "node \<Rightarrow> string" where
  "name (Tag n cl h cs) = n"
| "name (NavigableString s) = []"
| "name (Comment s) = []"

fun classes :: "node \<Rightarrow> string list" where
  "classes (Tag n cl h cs) = cl"
| "classes (NavigableString s) = []"
| "classes (Comment s) = []"

fun href :: "node \<Rightarrow> string option" where
  "href (Tag n cl h cs) = h"
| "href (NavigableString s) = None"
| "href (Comment s) = None"

fun contents :: "node \<Rightarrow> node list" where
  "contents (Tag n cl h cs) = cs"
| "contents (NavigableString s) = []"
| "contents (Comment s) = []"

fun is_tag :: "node \<Rightarrow> bool" where
  "is_tag (Tag n cl h cs) = True"
| "is_tag (NavigableString s) = False"
| "is_tag (Comment s) = False"

text \<open>The text strings below a node, in document order.\<close>

fun all_strings :: "node \<Rightarrow> string list" where
  "all_strings (Tag n cl h cs) = concat (map all_strings cs)"
| "all_strings (NavigableString s) = [s]"
| "all_strings (Comment s) = []"

text \<open>\<open>e.get_text()\<close> and \<open>e.get_text(separator=sep, strip=True)\<close>: with \<open>strip\<close>
  every string is stripped and the empty ones are dropped before joining.\<close>

definition get_text :: "node \<Rightarrow> string" where
  "get_text e = concat (all_strings e)"

definition get_text_strip :: "string \<Rightarrow> node \<Rightarrow> string" where
  "get_text_strip sep e = join sep (filter (\<lambda>s. s \<noteq> []) (map strip (all_strings e)))"

text \<open>
  A tag found in the tree is kept with its place among its siblings, so that the
  sibling navigation of the source can be followed: the siblings before it (the
  nearest first), the tag, and the siblings after it.
\<close>

type_synonym located = "node list \<times> node \<times> node list"

definition elem :: "located \<Rightarrow> node" where
  "elem l = fst (snd l)"

definition before :: "located \<Rightarrow> node list" where
  "before l = fst l"

definition after :: "located \<Rightarrow> node list" where
  "after l = snd (snd l)"

text \<open>All tags below a list of siblings, in document order (a tag before its
  descendants, these before its following siblings).\<close>

fun descendants :: "node list \<Rightarrow> node list \<Rightarrow> located list" where
  "descendants prev [] = []"
| "descendants prev (Tag n cl h cs # rest) =
     (prev, Tag n cl h cs, rest) # descendants [] cs @ descendants (Tag n cl h cs # prev) rest"
| "descendants prev (NavigableString s # rest) = descendants (NavigableString s # prev) rest"
| "descendants prev (Comment s # rest) = descendants (Comment s # prev) rest"

text \<open>\<open>soup.find_all(names)\<close>, \<open>e.find_all(name)\<close> and \<open>e.find(name)\<close> (here \<open>find_tag\<close>).\<close>

definition find_all_located :: "string list \<Rightarrow> node list \<Rightarrow> located list" where
  "find_all_located names doc = filter (\<lambda>l. name (elem l) \<in> set names) (descendants [] doc)"

definition find_all :: "string \<Rightarrow> node \<Rightarrow> node list" where
  "find_all nm e = map elem (find_all_located [nm] (contents e))"

definition find_tag :: "string \<Rightarrow> node \<Rightarrow> node option" where
  "find_tag nm e = (case find_all nm e of [] \<Rightarrow> None | x # xs \<Rightarrow> Some x)"

text \<open>The tags among the siblings before and after a located tag: what repeated
  \<open>find_previous_sibling()\<close> and \<open>find_next_sibling()\<close> visit, text and comments being
  passed over.\<close>

definition previous_siblings :: "located \<Rightarrow> node list" where
  "previous_siblings l = filter is_tag (before l)"

definition next_siblings :: "located \<Rightarrow> node list" where
  "next_siblings l = filter is_tag (after l)"

section \<open>Resolving a link\<close>

text \<open>
  \<open>urljoin("https://en.wikipedia.org", url)\<close> of \<open>urllib.parse\<close> for a \<open>url\<close> that starts
  with \<open>/wiki/\<close> and contains no \<open>:\<close>, the only kind the extractor passes. Such a url
  has no scheme and no host of its own and takes both from the base, whose path is
  empty. Tabs, carriage returns and line feeds are removed; fragment, query and
  parameters are split off (\<open>urlparse\<close>); the segments \<open>.\<close> and \<open>..\<close> of the path are
  resolved; the parts are put together again, the empty ones left out (\<open>urlunparse\<close>).
\<close>

definition split_first :: "char \<Rightarrow> string \<Rightarrow> string \<times> string" where
  "split_first c s = (takeWhile (\<lambda>x. x \<noteq> c) s, drop 1 (dropWhile (\<lambda>x. x \<noteq> c) s))"

definition splitparams :: "string \<Rightarrow> string \<times> string" where
  "splitparams u =
     (let tl_seg = rev (takeWhile (\<lambda>x. x \<noteq> CHR ''/'') (rev u));
          hd_part = rev (dropWhile (\<lambda>x. x \<noteq> CHR ''/'') (rev u))
      in (hd_part @ fst (split_first CHR '';'' tl_seg), snd (split_first CHR '';'' tl_seg)))"

fun resolve :: "string list \<Rightarrow> string list \<Rightarrow> string list" where
  "resolve [] resolved_path = resolved_path"
| "resolve (seg # segs) resolved_path =
     (if seg = ''..'' then resolve segs (butlast resolved_path)
      else if seg = ''.'' then resolve segs resolved_path
      else resolve segs (resolved_path @ [seg]))"

definition urlunparse :: "string \<Rightarrow> string \<Rightarrow> string \<Rightarrow> string \<Rightarrow> string" where
  "urlunparse path params query fragment =
     (let u1 = (if params \<noteq> [] then path @ '';'' @ params else path);
          u2 = (if u1 \<noteq> [] \<and> \<not> startswith ''/'' u1 then ''/'' @ u1 else u1);
          u3 = ''https:'' @ ''//'' @ ''en.wikipedia.org'' @ u2;
          u4 = (if query \<noteq> [] then u3 @ ''?'' @ query else u3)
      in if fragment \<noteq> [] then u4 @ ''#'' @ fragment else u4)"

text \<open>\<open>urlparse(url, 'https')\<close> without scheme and host: path, parameters, query and
  fragment.\<close>

definition urlparse :: "string \<Rightarrow> string \<times> string \<times> string \<times> string" where
  "urlparse url =
     (let u = filter (\<lambda>c. c \<notin> {CHR 0x09, CHR 0x0D, CHR 0x0A}) url;
          (u1, fragment) = split_first CHR ''#'' u;
          (u2, query) = split_first CHR ''?'' u1;
          (path, params) = splitparams u2
      in (path, params, query, fragment))"

definition url_path :: "string \<Rightarrow> string" where
  "url_path url = fst (urlparse url)"

definition urljoin :: "string \<Rightarrow> string" where
  "urljoin url =
     (let (path, params, query, fragment) = urlparse url
      in if path = [] \<and> params = [] then urlunparse [] [] query fragment
         else
           let segments =
                 (if startswith ''/'' path then split CHR ''/'' path
                  else (let s = [] # split CHR ''/'' path
                        in hd s # filter (\<lambda>x. x \<noteq> []) (butlast (tl s)) @ [last s]));
               resolved_path = resolve segments [];
               resolved_path = (if last segments = ''.'' \<or> last segments = ''..''
                                then resolved_path @ [[]] else resolved_path);
               joined = join ''/'' resolved_path
           in urlunparse (if joined = [] then ''/'' else joined) params query fragment)"

section \<open>The nomination extractor\<close>

record movie =
  year :: "string option"
  title :: string
  url :: string

definition stop_phrases :: "string list" where
  "stop_phrases =
     [''Production companies and distributors with multiple nominations and wins'',
      ''production company'',
      ''distributor'']"

text \<open>\<open>any(phrase.lower() in text for phrase in stop_phrases)\<close>.\<close>

definition any_stop_phrase :: "string \<Rightarrow> bool" where
  "any_stop_phrase text = list_ex (\<lambda>phrase. contains (lower phrase) text) stop_phrases"

text \<open>The loop over \<open>range(3)\<close> that collects the tags before the table:
  \<open>current\<close> is given by the tags still before it.\<close>

fun prev_elements_loop :: "nat \<Rightarrow> node list \<Rightarrow> node list \<Rightarrow> node list" where
  "prev_elements_loop 0 current prev_elements = prev_elements"
| "prev_elements_loop (Suc k) [] prev_elements = prev_elements_loop k [] prev_elements"
| "prev_elements_loop (Suc k) (c # cs) prev_elements =
     prev_elements_loop k cs (prev_elements @ [c])"

definition prev_elements :: "located \<Rightarrow> node list" where
  "prev_elements table = prev_elements_loop 3 (previous_siblings table) []"

definition should_stop :: "located \<Rightarrow> bool" where
  "should_stop table =
     list_ex (\<lambda>element. any_stop_phrase (lower (get_text element))) (prev_elements table)"

definition caption_stop :: "node \<Rightarrow> bool" where
  "caption_stop table =
     (case find_tag ''caption'' table of
        None \<Rightarrow> False
      | Some caption \<Rightarrow> any_stop_phrase (lower (get_text caption)))"

definition first_row_stop :: "node \<Rightarrow> bool" where
  "first_row_stop table =
     (case find_tag ''tr'' table of
        None \<Rightarrow> False
      | Some first_row \<Rightarrow>
          (let header_text = lower (get_text first_row)
           in contains ''production company'' header_text
              \<or> (contains ''nominations'' header_text \<and> contains ''wins'' header_text)))"

text \<open>Lines 74 to 80: the year a row leaves in \<open>current_year\<close>.\<close>

definition year_parts :: "node \<Rightarrow> string" where
  "year_parts year_th =
     filter isdigit_char (hd (split CHR 0x0A (get_text_strip [] year_th)))"

definition row_year :: "node \<Rightarrow> string option \<Rightarrow> string option" where
  "row_year row current_year =
     (case find_tag ''th'' row of
        None \<Rightarrow> current_year
      | Some year_th \<Rightarrow>
          (if year_parts year_th \<noteq> [] \<and> length (year_parts year_th) \<ge> 4
           then Some (take 4 (year_parts year_th)) else current_year))"

text \<open>Lines 90 to 103: the cell that holds the film; \<open>None\<close> where the source
  goes on to the next row.\<close>

definition film_cell :: "node list \<Rightarrow> node option" where
  "film_cell cells =
     (case cells of
        c0 # c1 # rest \<Rightarrow>
          (let first_cell_text = get_text_strip [] c0
           in if first_cell_text \<noteq> []
                 \<and> isdigit (remove_char CHR '')'' (remove_char CHR ''(''
                      (remove_char CHR ''/'' first_cell_text)))
              then Some c1 else Some c0)
      | [c0] \<Rightarrow> Some c0
      | [] \<Rightarrow> None)"

text \<open>Lines 108 to 127: the record of the first link of the film cell; \<open>None\<close>
  where nothing is appended.\<close>

definition link_movie :: "string option \<Rightarrow> node \<Rightarrow> movie option" where
  "link_movie current_year cell =
     (case find_tag ''a'' cell of
        None \<Rightarrow> None
      | Some link \<Rightarrow>
          (let title = get_text_strip [] link
           in case href link of
                None \<Rightarrow> None
              | Some h \<Rightarrow>
                  if h = [] \<or> \<not> startswith ''/wiki/'' h then None
                  else if CHR '':'' \<in> set h then None
                  else (let full_url = urljoin h
                        in if title \<noteq> [] \<and> full_url \<noteq> []
                           then Some \<lparr>year = current_year, title = title, url = full_url\<rparr>
                           else None)))"

text \<open>Lines 82 to 127: the record a row appends under the year in force; \<open>None\<close>
  where the source goes on to the next row without appending.\<close>

definition row_movie :: "string option \<Rightarrow> node \<Rightarrow> movie option" where
  "row_movie current_year row =
     (let cells = find_all ''td'' row
      in if length cells = 0 then None
         else (case film_cell cells of
                 None \<Rightarrow> None
               | Some cell \<Rightarrow> link_movie current_year cell))"

text \<open>One pass of the loop over the rows: the state is \<open>current_year\<close> and \<open>movies\<close>.\<close>

definition row_step :: "node \<Rightarrow> string option \<times> movie list \<Rightarrow> string option \<times> movie list" where
  "row_step row st =
     (let current_year = row_year row (fst st)
      in case row_movie current_year row of
           None \<Rightarrow> (current_year, snd st)
         | Some m \<Rightarrow> (current_year, snd st @ [m]))"

fun rows_loop :: "node list \<Rightarrow> string option \<times> movie list \<Rightarrow> string option \<times> movie list" where
  "rows_loop [] st = st"
| "rows_loop (row # rows) st = rows_loop rows (row_step row st)"

text \<open>The loop over the tables: each \<open>break\<close> returns the records collected so far,
  and every table starts with \<open>current_year = None\<close>.\<close>

fun tables_loop :: "located list \<Rightarrow> movie list \<Rightarrow> movie list" where
  "tables_loop [] movies = movies"
| "tables_loop (table # tables) movies =
     (if should_stop table then movies
      else if caption_stop (elem table) then movies
      else if first_row_stop (elem table) then movies
      else tables_loop tables (snd (rows_loop (find_all ''tr'' (elem table)) (None, movies))))"

text \<open>\<open>soup.find_all('table', class_='wikitable')\<close>.\<close>

definition wikitables :: "node list \<Rightarrow> located list" where
  "wikitables soup =
     filter (\<lambda>l. ''wikitable'' \<in> set (classes (elem l))) (find_all_located [''table''] soup)"

definition get_best_picture_nominations :: "node list \<Rightarrow> movie list" where
  "get_best_picture_nominations soup = tables_loop (wikitables soup) []"

section \<open>The section extractor\<close>

definition heading_matches :: "string \<Rightarrow> node \<Rightarrow> bool" where
  "heading_matches section_name element =
     (if name element = ''div'' \<and> ''mw-heading'' \<in> set (classes element)
      then contains (lower section_name) (lower (get_text element))
      else if name element = ''h2'' \<or> name element = ''h3''
      then contains (lower section_name) (lower (get_text element))
      else False)"

text \<open>The search loop: the first element that matches is \<open>plot_section\<close>.\<close>

fun find_plot_section :: "string \<Rightarrow> located list \<Rightarrow> located option" where
  "find_plot_section section_name [] = None"
| "find_plot_section section_name (element # elements) =
     (if heading_matches section_name (elem element) then Some element
      else find_plot_section section_name elements)"

text \<open>The two tests that end the walk: a \<open>mw-heading\<close> wrapper with an \<open>h2\<close> inside,
  or an \<open>h2\<close> itself.\<close>

definition main_heading :: "node \<Rightarrow> bool" where
  "main_heading current =
     ((name current = ''div'' \<and> ''mw-heading'' \<in> set (classes current)
         \<and> find_tag ''h2'' current \<noteq> None)
      \<or> name current = ''h2'')"

text \<open>The \<open>while current\<close> loop over the tags after the heading.\<close>

fun walk :: "node list \<Rightarrow> string list \<Rightarrow> string list" where
  "walk [] plot_text = plot_text"
| "walk (current # rest) plot_text =
     (if main_heading current then plot_text
      else if name current = ''p''
      then (let text = get_text_strip '' '' current
            in if text \<noteq> [] then walk rest (plot_text @ [text]) else walk rest plot_text)
      else walk rest plot_text)"

definition extract_plot_from_section :: "node list \<Rightarrow> string \<Rightarrow> string option" where
  "extract_plot_from_section soup section_name =
     (case find_plot_section section_name (find_all_located [''div'', ''h2'', ''h3''] soup) of
        None \<Rightarrow> None
      | Some plot_section \<Rightarrow>
          (let plot_text = walk (next_siblings plot_section) []
           in if plot_text \<noteq> [] then Some (join '' '' plot_text) else None))"

text \<open>
  \<open>extract_plot\<close> on the parsed page (fetching it is not modelled). The first
  component lists the section names \<open>extract_plot_from_section\<close> was called with, in
  order; \<open>not plot_text\<close> holds of \<open>None\<close> and of the empty string.
\<close>

definition falsy :: "string option \<Rightarrow> bool" where
  "falsy plot_text = (plot_text = None \<or> plot_text = Some [])"

definition extract_plot :: "node list \<Rightarrow> string list \<times> string option" where
  "extract_plot soup =
     (let plot_text = extract_plot_from_section soup ''Plot'';
          calls = [''Plot''];
          (plot_text, calls) =
             (if falsy plot_text
              then (extract_plot_from_section soup ''Synopsis'', calls @ [''Synopsis''])
              else (plot_text, calls))
      in if falsy plot_text then (calls, None) else (calls, plot_text))"

section \<open>Predicates of the statements\<close>

text \<open>A year is absent or four digits.\<close>

definition year_ok :: "string option \<Rightarrow> bool" where
  "year_ok y = (case y of None \<Rightarrow> True | Some d \<Rightarrow> length d = 4 \<and> list_all isdigit_char d)"

section \<open>Example documents\<close>

text \<open>Short forms for the elements of the documents on which the theorems are
  evaluated.\<close>

abbreviation a_link :: "string \<Rightarrow> string \<Rightarrow> node" where
  "a_link h t \<equiv> Tag ''a'' [] (Some h) [NavigableString t]"

abbreviation td_cell :: "node list \<Rightarrow> node" where
  "td_cell cs \<equiv> Tag ''td'' [] None cs"

abbreviation th_cell :: "string \<Rightarrow> node" where
  "th_cell t \<equiv> Tag ''th'' [] None [NavigableString t]"

abbreviation tr_row :: "node list \<Rightarrow> node" where
  "tr_row cs \<equiv> Tag ''tr'' [] None cs"

abbreviation wikitable :: "node list \<Rightarrow> node" where
  "wikitable rows \<equiv> Tag ''table'' [''wikitable''] None rows"

abbreviation h2_heading :: "string \<Rightarrow> node" where
  "h2_heading t \<equiv> Tag ''h2'' [] None [NavigableString t]"

abbreviation h3_heading :: "string \<Rightarrow> node" where
  "h3_heading t \<equiv> Tag ''h3'' [] None [NavigableString t]"

abbreviation heading_wrapper :: "node list \<Rightarrow> node" where
  "heading_wrapper cs \<equiv> Tag ''div'' [''mw-heading''] None cs"

abbreviation paragraph_of :: "string \<Rightarrow> node" where
  "paragraph_of t \<equiv> Tag ''p'' [] None [NavigableString t]"

section \<open>Properties of the loops\<close>

lemma rows_loop_append: "rows_loop (xs @ ys) st = rows_loop ys (rows_loop xs st)"
  by (induction xs arbitrary: st) auto



lemma tables_loop_break:
  "should_stop table \<or> caption_stop (elem table) \<or> first_row_stop (elem table) \<Longrightarrow>
   tables_loop (pre @ table # post) movies = tables_loop pre movies"
  by (induction pre arbitrary: movies) auto

lemma row_step_eq:
  "row_step row (cy, ms) =
     (row_year row cy,
      ms @ (case row_movie (row_year row cy) row of None \<Rightarrow> [] | Some m \<Rightarrow> [m]))"
  by (simp add: row_step_def Let_def split: option.splits)

lemma rows_loop_no_year:
  "list_all (\<lambda>r. row_year r cy = cy) rows \<Longrightarrow>
   rows_loop rows (cy, ms) = (cy, ms @ List.map_filter (row_movie cy) rows)"
proof (induction rows arbitrary: ms)
  case Nil
  then show ?case by simp
next
  case (Cons r rows)
  then show ?case
    by (simp add: row_step_eq split: option.splits)
qed

lemma link_movie_year: "link_movie cy cell = Some m \<Longrightarrow> year m = cy"
  by (auto simp: link_movie_def Let_def split: option.splits if_splits)

lemma row_movie_year: "row_movie cy row = Some m \<Longrightarrow> year m = cy"
  by (auto simp: row_movie_def Let_def link_movie_year split: option.splits if_splits)

lemma map_filter_row_movie_year:
  "list_all (\<lambda>m. year m = cy) (List.map_filter (row_movie cy) rows)"
  by (induction rows) (auto simp: row_movie_year split: option.splits)

lemma row_year_unchanged:
  "(case find_tag ''th'' r of None \<Rightarrow> True | Some h \<Rightarrow> length (year_parts h) < 4) \<Longrightarrow>
   row_year r cy = cy"
  by (auto simp: row_year_def split: option.splits)

lemma split_not_Nil: "split sep s \<noteq> []"
  by (induction s) (auto split: list.splits)

lemma hd_split: "hd (split sep s) = takeWhile (\<lambda>c. c \<noteq> sep) s"
  using split_not_Nil [of sep]
  by (induction s) (auto split: list.splits)

lemma rows_loop_invariant:
  assumes emit: "\<And>row cy m. Q cy \<Longrightarrow> row_movie cy row = Some m \<Longrightarrow> P m"
    and keep: "\<And>row cy. Q cy \<Longrightarrow> Q (row_year row cy)"
  shows "Q cy \<Longrightarrow> list_all P ms \<Longrightarrow> list_all P (snd (rows_loop rows (cy, ms)))"
proof (induction rows arbitrary: cy ms)
  case Nil
  then show ?case by simp
next
  case (Cons r rows)
  have q: "Q (row_year r cy)"
    using Cons.prems(1) by (rule keep)
  have "list_all P (ms @ (case row_movie (row_year r cy) r of None \<Rightarrow> [] | Some m \<Rightarrow> [m]))"
    using Cons.prems(2) emit [OF q] by (auto split: option.splits)
  with Cons.IH [OF q] show ?case
    by (simp add: row_step_eq)
qed

lemma tables_loop_invariant:
  assumes emit: "\<And>row cy m. Q cy \<Longrightarrow> row_movie cy row = Some m \<Longrightarrow> P m"
    and keep: "\<And>row cy. Q cy \<Longrightarrow> Q (row_year row cy)"
    and init: "Q None"
  shows "list_all P ms \<Longrightarrow> list_all P (tables_loop tables ms)"
proof (induction tables arbitrary: ms)
  case Nil
  then show ?case by simp
next
  case (Cons t tables)
  then show ?case
    using rows_loop_invariant [of Q P None ms, OF emit keep init]
    by simp
qed

lemma row_year_eq:
  "row_year row cy =
     (case find_tag ''th'' row of
        None \<Rightarrow> cy
      | Some year_th \<Rightarrow>
          (let digits = filter isdigit_char
                 (takeWhile (\<lambda>c. c \<noteq> CHR 0x0A) (get_text_strip [] year_th))
           in if 4 \<le> length digits then Some (take 4 digits) else cy))"
  by (auto simp: row_year_def year_parts_def hd_split Let_def split: option.splits)

lemma year_parts_digits: "x \<in> set (take n (year_parts h)) \<Longrightarrow> isdigit_char x"
  by (auto simp: year_parts_def dest!: in_set_takeD)

lemma row_year_ok: "year_ok cy \<Longrightarrow> year_ok (row_year row cy)"
  by (auto simp: row_year_def year_ok_def list_all_iff year_parts_digits split: option.splits)

section \<open>Properties of link resolution\<close>

lemma startswith_append: "startswith p (p @ r)"
  by (induction p) auto

lemma startswith_slash: "startswith ''/'' s \<longleftrightarrow> (\<exists>r. s = CHR ''/'' # r)"
  by (cases s) auto

lemma urlunparse_slash:
  "path \<noteq> [] \<Longrightarrow> startswith ''https://en.wikipedia.org/'' (urlunparse path params query fragment)"
  by (cases path) (auto simp: urlunparse_def Let_def startswith_slash)

lemma urljoin_examples:
  "urljoin ''/wiki/Film_(1990)'' = ''https://en.wikipedia.org/wiki/Film_(1990)''"
  "urljoin ''/wiki/a/./b/../c'' = ''https://en.wikipedia.org/wiki/a/c''"
  "urljoin ''/wiki/..'' = ''https://en.wikipedia.org/''"
  "urljoin ''/wiki/.'' = ''https://en.wikipedia.org/wiki/''"
  "urljoin ''/wiki/a;p/b;q;r'' = ''https://en.wikipedia.org/wiki/a;p/b;q;r''"
  "urljoin ''/wiki/x?'' = ''https://en.wikipedia.org/wiki/x''"
  "urljoin ''/wiki/?q#f;x/..'' = ''https://en.wikipedia.org/wiki/?q#f;x/..''"
  by code_simp+

lemma urlunparse_not_Nil: "urlunparse path params query fragment \<noteq> []"
  by (simp add: urlunparse_def Let_def)

lemma urljoin_not_Nil: "urljoin h \<noteq> []"
  by (simp add: urljoin_def Let_def urlunparse_not_Nil split_beta)

lemma splitparams_path: "CHR ''/'' \<in> set u \<Longrightarrow> fst (splitparams u) \<noteq> []"
  by (auto simp: splitparams_def Let_def dropWhile_eq_Nil_conv)

lemma url_path_not_Nil:
  assumes "startswith ''/'' h"
  shows "url_path h \<noteq> []"
proof -
  obtain r where h: "h = CHR ''/'' # r"
    using assms by (auto simp: startswith_slash)
  define u where "u = filter (\<lambda>c. c \<notin> {CHR 0x09, CHR 0x0D, CHR 0x0A}) h"
  define u1 where "u1 = fst (split_first CHR ''#'' u)"
  define u2 where "u2 = fst (split_first CHR ''?'' u1)"
  have "CHR ''/'' \<in> set u2"
    by (simp add: u2_def u1_def u_def h split_first_def)
  then have "fst (splitparams u2) \<noteq> []"
    by (rule splitparams_path)
  then show ?thesis
    by (simp add: url_path_def urlparse_def Let_def u2_def u1_def u_def split_beta)
qed

lemma urljoin_site:
  assumes "startswith ''/'' h"
  shows "startswith ''https://en.wikipedia.org/'' (urljoin h)"
  using url_path_not_Nil [OF assms]
  by (simp add: urljoin_def url_path_def Let_def urlunparse_slash split_beta)

lemma startswith_wiki_conv: "startswith ''/wiki/'' h \<longleftrightarrow> (\<exists>r. h = ''/wiki/'' @ r)"
proof
  assume "startswith ''/wiki/'' h"
  then show "\<exists>r. h = ''/wiki/'' @ r"
    by (auto elim!: startswith.elims)
next
  assume "\<exists>r. h = ''/wiki/'' @ r"
  then show "startswith ''/wiki/'' h"
    by auto
qed

lemma rev_dropWhile_rev_append:
  assumes "\<not> P x"
  shows "rev (dropWhile P (rev (xs @ x # ys))) = xs @ x # rev (dropWhile P (rev ys))"
proof (cases "\<forall>y \<in> set ys. P y")
  case True
  then show ?thesis
    using assms by (simp add: dropWhile_append)
next
  case False
  then show ?thesis
    by (auto simp: dropWhile_append)
qed

lemma url_path_wiki:
  assumes "startswith ''/wiki/'' h"
  shows "\<exists>r. url_path h = ''/wiki/'' @ r"
proof -
  obtain r0 where h: "h = ''/wiki/'' @ r0"
    using assms by (auto simp: startswith_wiki_conv)
  define u where "u = filter (\<lambda>c. c \<notin> {CHR 0x09, CHR 0x0D, CHR 0x0A}) h"
  define u1 where "u1 = fst (split_first CHR ''#'' u)"
  define u2 where "u2 = fst (split_first CHR ''?'' u1)"
  obtain r2 where u2: "u2 = ''/wiki'' @ CHR ''/'' # r2"
    by (simp add: u2_def u1_def u_def h split_first_def)
  have hd_part: "rev (dropWhile (\<lambda>x. x \<noteq> CHR ''/'') (rev (''/wiki'' @ CHR ''/'' # r2)))
      = ''/wiki'' @ CHR ''/'' # rev (dropWhile (\<lambda>x. x \<noteq> CHR ''/'') (rev r2))"
    by (rule rev_dropWhile_rev_append) simp
  have "\<exists>r. fst (splitparams u2) = ''/wiki/'' @ r"
    unfolding splitparams_def Let_def fst_conv u2 hd_part by simp
  then show ?thesis
    by (simp add: url_path_def urlparse_def Let_def u2_def u1_def u_def split_beta)
qed

lemma split_wiki: "split CHR ''/'' (''/wiki/'' @ r) = [] # ''wiki'' # split CHR ''/'' r"
  by simp

lemma resolve_grows:
  "''..'' \<notin> set segs \<Longrightarrow>
   \<exists>ys. resolve segs acc = acc @ ys \<and> (segs \<noteq> [] \<and> last segs \<noteq> ''.'' \<longrightarrow> ys \<noteq> [])"
proof (induction segs arbitrary: acc)
  case Nil
  then show ?case by simp
next
  case (Cons seg segs)
  then have no: "''..'' \<notin> set segs" and seg: "seg \<noteq> ''..''"
    by auto
  show ?case
  proof (cases "seg = ''.''")
    case True
    from Cons.IH [OF no, of acc] obtain ys where
      "resolve segs acc = acc @ ys" "segs \<noteq> [] \<and> last segs \<noteq> ''.'' \<longrightarrow> ys \<noteq> []"
      by blast
    with True show ?thesis
      by (cases "segs = []") auto
  next
    case False
    from Cons.IH [OF no, of "acc @ [seg]"] obtain ys where
      "resolve segs (acc @ [seg]) = (acc @ [seg]) @ ys"
      by blast
    with False seg show ?thesis
      by simp
  qed
qed

lemma join_wiki: "ys \<noteq> [] \<Longrightarrow> join ''/'' ([] # ''wiki'' # ys) = ''/wiki/'' @ join ''/'' ys"
  by (cases ys) auto

lemma urlunparse_wiki:
  "startswith ''https://en.wikipedia.org/wiki/''
     (urlunparse (''/wiki/'' @ r) params query fragment)"
  by (simp add: urlunparse_def Let_def)

lemma urljoin_eq:
  assumes "startswith ''/wiki/'' h"
  shows "urljoin h =
     urlunparse
       (let segments = split CHR ''/'' (url_path h);
            resolved_path = (if last segments = ''.'' \<or> last segments = ''..''
                             then resolve segments [] @ [[]] else resolve segments [])
        in if join ''/'' resolved_path = [] then ''/'' else join ''/'' resolved_path)
       (fst (snd (urlparse h))) (fst (snd (snd (urlparse h)))) (snd (snd (snd (urlparse h))))"
proof -
  obtain r where "url_path h = ''/wiki/'' @ r"
    using url_path_wiki [OF assms] by blast
  then have "fst (urlparse h) \<noteq> []" "startswith ''/'' (fst (urlparse h))"
    by (simp_all add: url_path_def)
  then show ?thesis
    by (simp add: urljoin_def Let_def split_beta url_path_def)
qed

lemma urljoin_wiki:
  assumes wiki: "startswith ''/wiki/'' h"
    and dots: "''..'' \<notin> set (split CHR ''/'' (url_path h))"
  shows "startswith ''https://en.wikipedia.org/wiki/'' (urljoin h)"
proof -
  obtain r where path: "url_path h = ''/wiki/'' @ r"
    using url_path_wiki [OF wiki] by blast
  let ?segs = "split CHR ''/'' r"
  have segments: "split CHR ''/'' (url_path h) = [] # ''wiki'' # ?segs"
    unfolding path by (rule split_wiki)
  have no: "''..'' \<notin> set ?segs"
    using dots by (simp add: segments)
  have ne: "?segs \<noteq> []"
    by (rule split_not_Nil)
  obtain ys where ys: "resolve ?segs [[], ''wiki''] = [[], ''wiki''] @ ys"
    "?segs \<noteq> [] \<and> last ?segs \<noteq> ''.'' \<longrightarrow> ys \<noteq> []"
    using resolve_grows [OF no, of "[[], ''wiki'']"] by blast
  define zs where "zs = (if last ?segs = ''.'' then ys @ [[]] else ys)"
  have zs: "zs \<noteq> []"
    using ys(2) ne by (auto simp: zs_def)
  have last_no: "last ?segs \<noteq> ''..''"
    using no ne last_in_set by metis
  have resolved: "(if last (split CHR ''/'' (url_path h)) = ''.''
                     \<or> last (split CHR ''/'' (url_path h)) = ''..''
                   then resolve (split CHR ''/'' (url_path h)) [] @ [[]]
                   else resolve (split CHR ''/'' (url_path h)) []) = [] # ''wiki'' # zs"
    using ne last_no by (simp add: segments ys(1) zs_def)
  have joined: "join ''/'' ([] # ''wiki'' # zs) = ''/wiki/'' @ join ''/'' zs"
    using zs by (rule join_wiki)
  have "urljoin h = urlunparse (''/wiki/'' @ join ''/'' zs) (fst (snd (urlparse h)))
          (fst (snd (snd (urlparse h)))) (snd (snd (snd (urlparse h))))"
    unfolding urljoin_eq [OF wiki] Let_def resolved joined by simp
  then show ?thesis
    by (simp only: urlunparse_wiki)
qed

section \<open>Properties of a row\<close>

lemma remove_chars_filter:
  "remove_char CHR '')'' (remove_char CHR ''('' (remove_char CHR ''/'' s))
   = filter (\<lambda>c. c \<notin> {CHR ''/'', CHR ''('', CHR '')''}) s"
  by (induction s) (auto simp: remove_char_def)

lemma film_cell_Some_not_Nil: "film_cell cells = Some cell \<Longrightarrow> cells \<noteq> []"
  by (auto simp: film_cell_def)

lemma row_movie_film_cell:
  "film_cell (find_all ''td'' row) = Some cell \<Longrightarrow> row_movie cy row = link_movie cy cell"
  by (auto simp: row_movie_def Let_def dest: film_cell_Some_not_Nil)

lemma tables_loop_scanned:
  "\<not> should_stop table \<Longrightarrow> \<not> caption_stop (elem table) \<Longrightarrow> \<not> first_row_stop (elem table) \<Longrightarrow>
   tables_loop (table # tables) movies
   = tables_loop tables (snd (rows_loop (find_all ''tr'' (elem table)) (None, movies)))"
  by simp

lemma startswith_wiki_slash: "startswith ''/wiki/'' h \<Longrightarrow> startswith ''/'' h"
  by (cases h) auto

section \<open>Stop phrases\<close>




text \<open>
  Claim C2, as amended. A table whose first row has both \<open>nominations\<close> and \<open>wins\<close>
  in its text ends the extraction, as a stop phrase does: the result is what the
  tables before it have given, and no later table is scanned.
\<close>

theorem aggregate_table_terminates:
  assumes tables: "wikitables soup = pre @ table # post"
    and first_row: "find_tag ''tr'' (elem table) = Some first_row"
    and nominations: "contains ''nominations'' (lower (get_text first_row))"
    and wins: "contains ''wins'' (lower (get_text first_row))"
  shows "get_best_picture_nominations soup = tables_loop pre []"
proof -
  have "first_row_stop (elem table)"
    using first_row nominations wins by (simp add: first_row_stop_def)
  then show ?thesis
    unfolding get_best_picture_nominations_def tables
    by (simp add: tables_loop_break)
qed

text \<open>The theorem at a document of three tables, the second one an aggregate
  table: only the film of the first table is returned.\<close>

theorem aggregate_table_terminates_witness:
  "get_best_picture_nominations
     [wikitable [tr_row [td_cell [a_link ''/wiki/A'' ''A'']]],
      wikitable [tr_row [th_cell ''Nominations'', th_cell ''Wins'']],
      wikitable [tr_row [td_cell [a_link ''/wiki/B'' ''B'']]]]
   = [\<lparr>year = None, title = ''A'', url = ''https://en.wikipedia.org/wiki/A''\<rparr>]"
proof -
  let ?t1 = "wikitable [tr_row [td_cell [a_link ''/wiki/A'' ''A'']]]"
  let ?r = "tr_row [th_cell ''Nominations'', th_cell ''Wins'']"
  let ?t2 = "wikitable [?r]"
  let ?t3 = "wikitable [tr_row [td_cell [a_link ''/wiki/B'' ''B'']]]"
  have tables: "wikitables [?t1, ?t2, ?t3]
      = [([], ?t1, [?t2, ?t3])] @ ([?t1], ?t2, [?t3]) # [([?t2, ?t1], ?t3, [])]"
    by code_simp
  have first_row: "find_tag ''tr'' (elem ([?t1], ?t2, [?t3])) = Some ?r"
    by code_simp
  have nominations: "contains ''nominations'' (lower (get_text ?r))"
    by code_simp
  have wins: "contains ''wins'' (lower (get_text ?r))"
    by code_simp
  have "tables_loop [([], ?t1, [?t2, ?t3])] []
        = [\<lparr>year = None, title = ''A'', url = ''https://en.wikipedia.org/wiki/A''\<rparr>]"
    by code_simp
  with aggregate_table_terminates [OF tables first_row nominations wins] show ?thesis
    by simp
qed

text \<open>
  Claim C2 as stated fails: the second table alone gives the film \<open>B\<close>, but after a
  table whose first row reads \<open>Nominations\<close>, \<open>Wins\<close> nothing is returned. The source
  leaves the loop over the tables with \<open>break\<close>; it does not go on to the next table.
\<close>

theorem aggregate_table_skip_counterexample:
  "find_tag ''tr'' (wikitable [tr_row [th_cell ''Nominations'', th_cell ''Wins'']])
     = Some (tr_row [th_cell ''Nominations'', th_cell ''Wins''])
   \<and> contains ''nominations'' (lower (get_text (tr_row [th_cell ''Nominations'', th_cell ''Wins''])))
   \<and> contains ''wins'' (lower (get_text (tr_row [th_cell ''Nominations'', th_cell ''Wins''])))
   \<and> get_best_picture_nominations
        [wikitable [tr_row [td_cell [a_link ''/wiki/B'' ''B'']]]]
     = [\<lparr>year = None, title = ''B'', url = ''https://en.wikipedia.org/wiki/B''\<rparr>]
   \<and> get_best_picture_nominations
        [wikitable [tr_row [th_cell ''Nominations'', th_cell ''Wins'']],
         wikitable [tr_row [td_cell [a_link ''/wiki/B'' ''B'']]]]
     = []"
  by code_simp

section \<open>The year of a record\<close>

text \<open>
  Claim C3, as amended. In a table that is scanned, let a row have a header cell with
  at least four digits, and let the rows that follow it, up to some later row of the
  table or to its end, have no such header cell. Then this row and those rows give
  their records with the year of that header cell: the table adds to the records of
  its earlier rows exactly the records of these rows under that year, and goes on
  with the remaining rows from that year. Every table starts with no year (its first
  rows are scanned from \<open>None\<close>), so a year is carried to the end of its table at
  most, and not into the next table.
\<close>

theorem year_carry_within_table:
  assumes scanned: "\<not> should_stop table" "\<not> caption_stop (elem table)" "\<not> first_row_stop (elem table)"
    and rows: "find_all ''tr'' (elem table) = before_rows @ row # rows @ after_rows"
    and header: "find_tag ''th'' row = Some year_th" "4 \<le> length (year_parts year_th)"
    and no_header:
      "list_all (\<lambda>r. case find_tag ''th'' r of None \<Rightarrow> True
                                         | Some h \<Rightarrow> length (year_parts h) < 4) rows"
  shows "tables_loop (table # tables) movies
         = tables_loop tables
             (snd (rows_loop after_rows
                (Some (take 4 (year_parts year_th)),
                 snd (rows_loop before_rows (None, movies))
                 @ List.map_filter (row_movie (Some (take 4 (year_parts year_th)))) (row # rows))))
       \<and> list_all (\<lambda>m. year m = Some (take 4 (year_parts year_th)))
            (List.map_filter (row_movie (Some (take 4 (year_parts year_th)))) (row # rows))"
proof -
  let ?y = "Some (take 4 (year_parts year_th))"
  obtain cy ms where pre: "rows_loop before_rows (None, movies) = (cy, ms)"
    by (cases "rows_loop before_rows (None, movies)")
  have year: "row_year row cy = ?y"
    using header by (auto simp: row_year_def)
  have keep: "list_all (\<lambda>r. row_year r ?y = ?y) rows"
    using no_header by (auto simp: list_all_iff row_year_unchanged)
  have "rows_loop (before_rows @ row # rows) (None, movies)
        = rows_loop rows (row_step row (cy, ms))"
    by (simp add: rows_loop_append pre)
  also have "\<dots> = (?y, ms @ List.map_filter (row_movie ?y) (row # rows))"
    by (simp add: row_step_eq year rows_loop_no_year [OF keep] split: option.splits)
  finally have "rows_loop ((before_rows @ row # rows) @ after_rows) (None, movies)
        = rows_loop after_rows (?y, ms @ List.map_filter (row_movie ?y) (row # rows))"
    by (simp only: rows_loop_append)
  then have "snd (rows_loop (find_all ''tr'' (elem table)) (None, movies))
        = snd (rows_loop after_rows
             (?y, snd (rows_loop before_rows (None, movies))
                  @ List.map_filter (row_movie ?y) (row # rows)))"
    by (simp add: rows pre)
  then show ?thesis
    using scanned map_filter_row_movie_year [of ?y "row # rows"] by simp
qed

text \<open>The theorem at a table of two rows, the first with the header cell
  \<open>1990\<close>: both records have the year \<open>1990\<close>.\<close>

theorem year_carry_within_table_witness:
  "get_best_picture_nominations
     [wikitable [tr_row [th_cell ''1990'', td_cell [a_link ''/wiki/A'' ''A'']],
                 tr_row [td_cell [a_link ''/wiki/B'' ''B'']]]]
   = [\<lparr>year = Some ''1990'', title = ''A'', url = ''https://en.wikipedia.org/wiki/A''\<rparr>,
      \<lparr>year = Some ''1990'', title = ''B'', url = ''https://en.wikipedia.org/wiki/B''\<rparr>]"
proof -
  let ?r1 = "tr_row [th_cell ''1990'', td_cell [a_link ''/wiki/A'' ''A'']]"
  let ?r2 = "tr_row [td_cell [a_link ''/wiki/B'' ''B'']]"
  let ?t = "([], wikitable [?r1, ?r2], []) :: located"
  have scanned: "\<not> should_stop ?t" "\<not> caption_stop (elem ?t)" "\<not> first_row_stop (elem ?t)"
    by code_simp+
  have rows: "find_all ''tr'' (elem ?t) = [] @ ?r1 # [?r2] @ []"
    by code_simp
  have header: "find_tag ''th'' ?r1 = Some (th_cell ''1990'')" "4 \<le> length (year_parts (th_cell ''1990''))"
    by code_simp+
  have no_header: "list_all (\<lambda>r. case find_tag ''th'' r of None \<Rightarrow> True
                                         | Some h \<Rightarrow> length (year_parts h) < 4) [?r2]"
    by code_simp
  have tables: "wikitables [wikitable [?r1, ?r2]] = [?t]"
    by code_simp
  have "List.map_filter (row_movie (Some (take 4 (year_parts (th_cell ''1990''))))) (?r1 # [?r2])
    = [\<lparr>year = Some ''1990'', title = ''A'', url = ''https://en.wikipedia.org/wiki/A''\<rparr>,
      \<lparr>year = Some ''1990'', title = ''B'', url = ''https://en.wikipedia.org/wiki/B''\<rparr>]"
    by code_simp
  with year_carry_within_table [OF scanned rows header no_header, of "[]" "[]"] show ?thesis
    by (simp add: get_best_picture_nominations_def tables)
qed

text \<open>
  Claim C3 as stated fails for later tables: the row of the second table has no header
  cell, and its record has no year, although the first table has set \<open>1990\<close>.
  \<open>current_year\<close> is set to \<open>None\<close> at the start of every table.
\<close>

theorem year_across_tables_counterexample:
  "find_tag ''th'' (tr_row [td_cell [a_link ''/wiki/B'' ''B'']]) = None
   \<and> get_best_picture_nominations
     [wikitable [tr_row [th_cell ''1990'', td_cell [a_link ''/wiki/A'' ''A'']]],
      wikitable [tr_row [td_cell [a_link ''/wiki/B'' ''B'']]]]
   = [\<lparr>year = Some ''1990'', title = ''A'', url = ''https://en.wikipedia.org/wiki/A''\<rparr>,
      \<lparr>year = None, title = ''B'', url = ''https://en.wikipedia.org/wiki/B''\<rparr>]"
  by code_simp

text \<open>
  Claim C4, as amended. For a row with a header cell, the digits of the cell's text
  before the first line break are collected, wherever they stand in that line;
  \<open>current_year\<close> becomes the first four of them when there are at least four, and is
  unchanged otherwise, as it is for a row without a header cell. Every record returned
  has no year or a year of exactly four digit characters.
\<close>

theorem year_parsing:
  "(find_tag ''th'' row = Some year_th \<longrightarrow>
      row_year row current_year =
        (let digits = filter isdigit_char
               (takeWhile (\<lambda>c. c \<noteq> CHR 0x0A) (get_text_strip [] year_th))
         in if 4 \<le> length digits then Some (take 4 digits) else current_year))
   \<and> (find_tag ''th'' row = None \<longrightarrow> row_year row current_year = current_year)
   \<and> list_all (\<lambda>m. case year m of
                        None \<Rightarrow> True
                      | Some y \<Rightarrow> length y = 4 \<and> list_all isdigit_char y)
         (get_best_picture_nominations soup)"
proof -
  have "list_all (\<lambda>m. year_ok (year m)) (tables_loop (wikitables soup) [])"
  proof (rule tables_loop_invariant [where Q = year_ok])
    show "year_ok (year m)" if "year_ok cy" "row_movie cy row = Some m" for row cy m
      using that by (simp add: row_movie_year)
    show "year_ok (row_year row cy)" if "year_ok cy" for row cy
      using that by (rule row_year_ok)
    show "year_ok None"
      by (simp add: year_ok_def)
    show "list_all (\<lambda>m. year_ok (year m)) []"
      by simp
  qed
  then show ?thesis
    by (simp add: row_year_eq get_best_picture_nominations_def year_ok_def)
qed

text \<open>The theorem at the header cells \<open>2010 (83rd)\<close> (the year becomes \<open>2010\<close>) and
  \<open>83rd\<close> (the year stays), at a row without header cell, and at a document.\<close>

theorem year_parsing_witness:
  "row_year (tr_row [th_cell ''2010 (83rd)'', td_cell [a_link ''/wiki/A'' ''A'']]) None
     = Some ''2010''
   \<and> row_year (tr_row [th_cell ''83rd'', td_cell [a_link ''/wiki/A'' ''A'']]) (Some ''2009'')
     = Some ''2009''
   \<and> row_year (tr_row [td_cell [a_link ''/wiki/A'' ''A'']]) (Some ''2009'') = Some ''2009''
   \<and> list_all (\<lambda>m. case year m of
                        None \<Rightarrow> True
                      | Some y \<Rightarrow> length y = 4 \<and> list_all isdigit_char y)
         (get_best_picture_nominations
            [wikitable [tr_row [th_cell ''2010 (83rd)'', td_cell [a_link ''/wiki/A'' ''A'']]]])"
proof -
  let ?r1 = "tr_row [th_cell ''2010 (83rd)'', td_cell [a_link ''/wiki/A'' ''A'']]"
  let ?r2 = "tr_row [th_cell ''83rd'', td_cell [a_link ''/wiki/A'' ''A'']]"
  let ?r3 = "tr_row [td_cell [a_link ''/wiki/A'' ''A'']]"
  have th1: "find_tag ''th'' ?r1 = Some (th_cell ''2010 (83rd)'')"
    by code_simp
  have th2: "find_tag ''th'' ?r2 = Some (th_cell ''83rd'')"
    by code_simp
  have th3: "find_tag ''th'' ?r3 = None"
    by code_simp
  have d1: "filter isdigit_char
               (takeWhile (\<lambda>c. c \<noteq> CHR 0x0A) (get_text_strip [] (th_cell ''2010 (83rd)'')))
            = ''201083''"
    by code_simp
  have d2: "filter isdigit_char
               (takeWhile (\<lambda>c. c \<noteq> CHR 0x0A) (get_text_strip [] (th_cell ''83rd'')))
            = ''83''"
    by code_simp
  show ?thesis
    using year_parsing [of ?r1 "th_cell ''2010 (83rd)''" None "[wikitable [?r1]]"]
      year_parsing [of ?r2 "th_cell ''83rd''" "Some ''2009''" "[]"]
      year_parsing [of ?r3 "th_cell []" "Some ''2009''" "[]"]
    unfolding th1 th2 th3 d1 d2
    by simp
qed

text \<open>
  Claim C4 as stated fails: the text \<open>(83rd) 2010\<close> of this header cell does not start
  with a digit, so its leading run of digits is empty, and yet the year is set, to
  \<open>8320\<close>. The source keeps every digit of the line, not the leading run.
\<close>

theorem leading_digits_counterexample:
  "find_tag ''th'' (tr_row [th_cell ''(83rd) 2010'', td_cell [a_link ''/wiki/A'' ''A'']])
     = Some (th_cell ''(83rd) 2010'')
   \<and> takeWhile isdigit_char (hd (split CHR 0x0A (get_text_strip [] (th_cell ''(83rd) 2010''))))
     = []
   \<and> row_year (tr_row [th_cell ''(83rd) 2010'', td_cell [a_link ''/wiki/A'' ''A'']]) None
     = Some ''8320''
   \<and> get_best_picture_nominations
        [wikitable [tr_row [th_cell ''(83rd) 2010'', td_cell [a_link ''/wiki/A'' ''A'']]]]
     = [\<lparr>year = Some ''8320'', title = ''A'', url = ''https://en.wikipedia.org/wiki/A''\<rparr>]"
  by code_simp

section \<open>The film cell and its link\<close>

text \<open>
  Claim C5. In a row with at least two data cells, the second cell is the film cell
  when the text of the first, without the characters \<open>/\<close>, \<open>(\<close> and \<open>)\<close>, consists of
  digits only (at least one, as \<open>str.isdigit\<close> requires), and the first cell is the
  film cell otherwise; in a row with one data cell this cell is the film cell; a row
  without data cells gives no record. The record of a row is the record of the first
  link of its film cell.
\<close>

theorem cell_role_classification:
  "(find_all ''td'' row = c0 # c1 # rest
      \<and> (let s = filter (\<lambda>c. c \<notin> {CHR ''/'', CHR ''('', CHR '')''}) (get_text_strip [] c0)
         in s \<noteq> [] \<and> list_all isdigit_char s)
      \<longrightarrow> row_movie current_year row = link_movie current_year c1)
   \<and> (find_all ''td'' row = c0 # c1 # rest
      \<and> \<not> (let s = filter (\<lambda>c. c \<notin> {CHR ''/'', CHR ''('', CHR '')''}) (get_text_strip [] c0)
            in s \<noteq> [] \<and> list_all isdigit_char s)
      \<longrightarrow> row_movie current_year row = link_movie current_year c0)
   \<and> (find_all ''td'' row = [c0] \<longrightarrow> row_movie current_year row = link_movie current_year c0)
   \<and> (find_all ''td'' row = []
      \<longrightarrow> row_movie current_year row = None
        \<and> snd (row_step row (year_before, movies)) = movies)"
proof -
  have digits: "row_movie current_year row = link_movie current_year c1"
    if "find_all ''td'' row = c0 # c1 # rest"
      and "let s = filter (\<lambda>c. c \<notin> {CHR ''/'', CHR ''('', CHR '')''}) (get_text_strip [] c0)
           in s \<noteq> [] \<and> list_all isdigit_char s"
  proof -
    from that(2) have "get_text_strip [] c0 \<noteq> []"
      by (auto simp: Let_def)
    with that show ?thesis
      by (simp add: row_movie_def film_cell_def isdigit_def remove_chars_filter Let_def)
  qed
  have other: "row_movie current_year row = link_movie current_year c0"
    if "find_all ''td'' row = c0 # c1 # rest"
      and "\<not> (let s = filter (\<lambda>c. c \<notin> {CHR ''/'', CHR ''('', CHR '')''}) (get_text_strip [] c0)
           in s \<noteq> [] \<and> list_all isdigit_char s)"
    using that
    by (auto simp: row_movie_def film_cell_def isdigit_def remove_chars_filter Let_def)
  have one: "row_movie current_year row = link_movie current_year c0"
    if "find_all ''td'' row = [c0]"
    using that by (simp add: row_movie_def film_cell_def)
  have none: "row_movie cy row = None" if "find_all ''td'' row = []" for cy
    using that by (simp add: row_movie_def)
  from digits other one none show ?thesis
    by (simp add: row_step_eq)
qed

text \<open>The theorem at the rows \<open>1995 | Film\<close>, \<open>Film | Producer\<close>, \<open>Film\<close> and at a
  row with a header cell only.\<close>

theorem cell_role_classification_witness:
  "row_movie None (tr_row [td_cell [NavigableString ''1995''], td_cell [a_link ''/wiki/Film'' ''Film'']])
     = link_movie None (td_cell [a_link ''/wiki/Film'' ''Film''])
   \<and> row_movie None (tr_row [td_cell [a_link ''/wiki/Film'' ''Film''], td_cell [NavigableString ''Producer'']])
     = link_movie None (td_cell [a_link ''/wiki/Film'' ''Film''])
   \<and> row_movie None (tr_row [td_cell [a_link ''/wiki/Film'' ''Film'']])
     = link_movie None (td_cell [a_link ''/wiki/Film'' ''Film''])
   \<and> row_movie None (tr_row [th_cell ''1995'']) = None
   \<and> link_movie None (td_cell [a_link ''/wiki/Film'' ''Film''])
     = Some \<lparr>year = None, title = ''Film'', url = ''https://en.wikipedia.org/wiki/Film''\<rparr>"
proof -
  let ?y = "td_cell [NavigableString ''1995'']"
  let ?f = "td_cell [a_link ''/wiki/Film'' ''Film'']"
  let ?p = "td_cell [NavigableString ''Producer'']"
  have c1: "find_all ''td'' (tr_row [?y, ?f]) = ?y # ?f # []"
    by code_simp
  have d1: "let s = filter (\<lambda>c. c \<notin> {CHR ''/'', CHR ''('', CHR '')''}) (get_text_strip [] ?y)
            in s \<noteq> [] \<and> list_all isdigit_char s"
    by code_simp
  have c2: "find_all ''td'' (tr_row [?f, ?p]) = ?f # ?p # []"
    by code_simp
  have d2: "\<not> (let s = filter (\<lambda>c. c \<notin> {CHR ''/'', CHR ''('', CHR '')''}) (get_text_strip [] ?f)
            in s \<noteq> [] \<and> list_all isdigit_char s)"
    by code_simp
  have c3: "find_all ''td'' (tr_row [?f]) = [?f]"
    by code_simp
  have c4: "find_all ''td'' (tr_row [th_cell ''1995'']) = []"
    by code_simp
  have l: "link_movie None ?f
     = Some \<lparr>year = None, title = ''Film'', url = ''https://en.wikipedia.org/wiki/Film''\<rparr>"
    by code_simp
  show ?thesis
    using cell_role_classification [of "tr_row [?y, ?f]" ?y ?f "[]" None None "[]"]
      cell_role_classification [of "tr_row [?f, ?p]" ?f ?p "[]" None None "[]"]
      cell_role_classification [of "tr_row [?f]" ?f ?p "[]" None None "[]"]
      cell_role_classification [of "tr_row [th_cell ''1995'']" ?f ?p "[]" None None "[]"]
      c1 d1 c2 d2 c3 c4 l
    by simp
qed

text \<open>
  Claim C6. Only the first link of the film cell counts. The row gives no record
  when the cell has no link, when the link has no target, a target that does not
  start with \<open>/wiki/\<close> or a target with a \<open>:\<close>, or when the text of the link is empty;
  otherwise it gives exactly one record, with the year in force, the text of the link
  and the resolved target. A row without record changes nothing but the year: the
  remaining rows of the table and the tables after it are scanned as before.
\<close>

theorem link_filtering:
  assumes cell: "film_cell (find_all ''td'' row) = Some cell"
  shows
    "(find_tag ''a'' cell = None \<longrightarrow> row_movie current_year row = None)
     \<and> (find_tag ''a'' cell = Some link
          \<and> (href link = None
             \<or> (\<exists>h. href link = Some h \<and> (\<not> startswith ''/wiki/'' h \<or> CHR '':'' \<in> set h))
             \<or> get_text_strip [] link = [])
        \<longrightarrow> row_movie current_year row = None)
     \<and> (find_tag ''a'' cell = Some link \<and> href link = Some target
          \<and> startswith ''/wiki/'' target \<and> CHR '':'' \<notin> set target
          \<and> get_text_strip [] link \<noteq> []
        \<longrightarrow> row_movie current_year row
            = Some \<lparr>year = current_year, title = get_text_strip [] link, url = urljoin target\<rparr>)
     \<and> (row_movie (row_year row year_before) row = None
        \<longrightarrow> rows_loop (row # rows) (year_before, movies)
            = rows_loop rows (row_year row year_before, movies))
     \<and> (row_movie (row_year row year_before) row = Some m
        \<longrightarrow> rows_loop (row # rows) (year_before, movies)
            = rows_loop rows (row_year row year_before, movies @ [m]))
     \<and> (\<not> should_stop table \<and> \<not> caption_stop (elem table) \<and> \<not> first_row_stop (elem table)
          \<and> find_all ''tr'' (elem table) = before_rows @ row # rows
          \<and> row_movie (row_year row (fst (rows_loop before_rows (None, movies)))) row = None
        \<longrightarrow> tables_loop (table # tables) movies
            = tables_loop tables
                (snd (rows_loop rows
                   (row_year row (fst (rows_loop before_rows (None, movies))),
                    snd (rows_loop before_rows (None, movies))))))"
proof -
  have rm: "row_movie current_year row = link_movie current_year cell"
    using cell by (rule row_movie_film_cell)
  have no_link: "link_movie current_year cell = None" if "find_tag ''a'' cell = None"
    using that by (simp add: link_movie_def)
  have rejected: "link_movie current_year cell = None"
    if "find_tag ''a'' cell = Some link"
      and "href link = None
             \<or> (\<exists>h. href link = Some h \<and> (\<not> startswith ''/wiki/'' h \<or> CHR '':'' \<in> set h))
             \<or> get_text_strip [] link = []"
    using that by (auto simp: link_movie_def Let_def split: option.splits)
  have accepted: "link_movie current_year cell
            = Some \<lparr>year = current_year, title = get_text_strip [] link, url = urljoin target\<rparr>"
    if "find_tag ''a'' cell = Some link" "href link = Some target"
      "startswith ''/wiki/'' target" "CHR '':'' \<notin> set target" "get_text_strip [] link \<noteq> []"
  proof -
    from that(3) have "target \<noteq> []"
      by auto
    with that show ?thesis
      by (simp add: link_movie_def Let_def urljoin_not_Nil)
  qed
  have skip: "rows_loop (row # rows) (year_before, movies)
            = rows_loop rows (row_year row year_before, movies)"
    if "row_movie (row_year row year_before) row = None"
    using that by (simp add: row_step_eq)
  have emit: "rows_loop (row # rows) (year_before, movies)
            = rows_loop rows (row_year row year_before, movies @ [m])"
    if "row_movie (row_year row year_before) row = Some m"
    using that by (simp add: row_step_eq)
  have blocks: "tables_loop (table # tables) movies
            = tables_loop tables
                (snd (rows_loop rows
                   (row_year row (fst (rows_loop before_rows (None, movies))),
                    snd (rows_loop before_rows (None, movies)))))"
    if "\<not> should_stop table" "\<not> caption_stop (elem table)" "\<not> first_row_stop (elem table)"
      "find_all ''tr'' (elem table) = before_rows @ row # rows"
      "row_movie (row_year row (fst (rows_loop before_rows (None, movies)))) row = None"
  proof -
    obtain cy ms where pre: "rows_loop before_rows (None, movies) = (cy, ms)"
      by (cases "rows_loop before_rows (None, movies)")
    with that(5) have "row_step row (cy, ms) = (row_year row cy, ms)"
      by (simp add: row_step_eq)
    then have "rows_loop (before_rows @ row # rows) (None, movies)
               = rows_loop rows (row_year row cy, ms)"
      by (simp add: rows_loop_append pre)
    then show ?thesis
      using that(1-4) by (simp add: pre)
  qed
  from no_link rejected accepted skip emit blocks show ?thesis
    unfolding rm by blast
qed

text \<open>The theorem at a cell without link, at a link to a category page and at a
  link to a film, and at a table whose first row is passed over.\<close>

theorem link_filtering_witness:
  "row_movie (Some ''1990'') (tr_row [td_cell [NavigableString ''Film'']]) = None
   \<and> row_movie (Some ''1990'') (tr_row [td_cell [a_link ''/wiki/Category:Films'' ''Films'']]) = None
   \<and> row_movie (Some ''1990'') (tr_row [td_cell [a_link ''/wiki/Film'' ''Film'']])
     = Some \<lparr>year = Some ''1990'', title = ''Film'', url = ''https://en.wikipedia.org/wiki/Film''\<rparr>
   \<and> get_best_picture_nominations
        [wikitable [tr_row [td_cell [a_link ''/wiki/Category:Films'' ''Films'']],
                    tr_row [td_cell [a_link ''/wiki/Film'' ''Film'']]]]
     = [\<lparr>year = None, title = ''Film'', url = ''https://en.wikipedia.org/wiki/Film''\<rparr>]"
proof -
  let ?c0 = "td_cell [NavigableString ''Film'']"
  let ?l1 = "a_link ''/wiki/Category:Films'' ''Films''"
  let ?c1 = "td_cell [?l1]"
  let ?l2 = "a_link ''/wiki/Film'' ''Film''"
  let ?c2 = "td_cell [?l2]"
  let ?t = "([], wikitable [tr_row [?c1], tr_row [?c2]], []) :: located"
  have f0: "film_cell (find_all ''td'' (tr_row [?c0])) = Some ?c0"
    and f1: "film_cell (find_all ''td'' (tr_row [?c1])) = Some ?c1"
    and f2: "film_cell (find_all ''td'' (tr_row [?c2])) = Some ?c2"
    by code_simp+
  have a0: "find_tag ''a'' ?c0 = None"
    and a1: "find_tag ''a'' ?c1 = Some ?l1"
    and a2: "find_tag ''a'' ?c2 = Some ?l2"
    by code_simp+
  have h1: "href ?l1 = Some ''/wiki/Category:Films''" "CHR '':'' \<in> set ''/wiki/Category:Films''"
    by simp_all
  have h2: "href ?l2 = Some ''/wiki/Film''" "startswith ''/wiki/'' ''/wiki/Film''"
    "CHR '':'' \<notin> set ''/wiki/Film''" "get_text_strip [] ?l2 \<noteq> []"
    "get_text_strip [] ?l2 = ''Film''" "urljoin ''/wiki/Film'' = ''https://en.wikipedia.org/wiki/Film''"
    by code_simp+
  have scanned: "\<not> should_stop ?t" "\<not> caption_stop (elem ?t)" "\<not> first_row_stop (elem ?t)"
    by code_simp+
  have rows: "find_all ''tr'' (elem ?t) = [] @ tr_row [?c1] # [tr_row [?c2]]"
    by code_simp
  have y: "row_year (tr_row [?c1]) None = None"
    by code_simp
  have rest: "row_step (tr_row [?c2]) (None, [])
     = (None, [\<lparr>year = None, title = ''Film'', url = ''https://en.wikipedia.org/wiki/Film''\<rparr>])"
    by code_simp
  have tables: "wikitables [wikitable [tr_row [?c1], tr_row [?c2]]] = [?t]"
    by code_simp
  note r0 = link_filtering [OF f0, where current_year = "Some ''1990''"]
  note r1 = link_filtering [OF f1, where link = ?l1 and current_year = None
      and year_before = None and rows = "[tr_row [?c2]]" and movies = "[]"
      and table = ?t and tables = "[]" and before_rows = "[]"]
  note r1' = link_filtering [OF f1, where link = ?l1 and current_year = "Some ''1990''"]
  note r2 = link_filtering [OF f2, where link = ?l2 and current_year = "Some ''1990''"
      and target = "''/wiki/Film''"]
  have skipped: "row_movie None (tr_row [?c1]) = None"
    using r1 a1 h1 by blast
  have "tables_loop [?t] []
     = [\<lparr>year = None, title = ''Film'', url = ''https://en.wikipedia.org/wiki/Film''\<rparr>]"
    using r1 scanned rows skipped by (simp add: y rest)
  moreover have "row_movie (Some ''1990'') (tr_row [?c0]) = None"
    using r0 a0 by blast
  moreover have "row_movie (Some ''1990'') (tr_row [?c1]) = None"
    using r1' a1 h1 by blast
  moreover have "row_movie (Some ''1990'') (tr_row [?c2])
     = Some \<lparr>year = Some ''1990'', title = ''Film'', url = ''https://en.wikipedia.org/wiki/Film''\<rparr>"
    using r2 a2 h2 by simp
  ultimately show ?thesis
    by (simp add: get_best_picture_nominations_def tables)
qed

section \<open>The records returned\<close>

lemma link_movie_record:
  assumes "link_movie cy cell = Some m"
  shows "title m \<noteq> [] \<and> startswith ''https://en.wikipedia.org/'' (url m)
         \<and> (\<exists>h. url m = urljoin h \<and> startswith ''/wiki/'' h \<and> CHR '':'' \<notin> set h
                \<and> (''..'' \<notin> set (split CHR ''/'' (url_path h))
                   \<longrightarrow> startswith ''https://en.wikipedia.org/wiki/'' (url m)))"
proof -
  from assms obtain link h where link: "find_tag ''a'' cell = Some link" "href link = Some h"
    and h: "startswith ''/wiki/'' h" "CHR '':'' \<notin> set h"
    and m: "m = \<lparr>year = cy, title = get_text_strip [] link, url = urljoin h\<rparr>"
      "get_text_strip [] link \<noteq> []"
    by (auto simp: link_movie_def Let_def split: option.splits if_splits)
  have "startswith ''https://en.wikipedia.org/'' (urljoin h)"
    using h(1) by (intro urljoin_site startswith_wiki_slash)
  moreover have "startswith ''https://en.wikipedia.org/wiki/'' (urljoin h)"
    if "''..'' \<notin> set (split CHR ''/'' (url_path h))"
    using h(1) that by (rule urljoin_wiki)
  ultimately show ?thesis
    using h m by auto
qed

lemma row_movie_record:
  assumes "row_movie cy row = Some m"
  shows "title m \<noteq> [] \<and> startswith ''https://en.wikipedia.org/'' (url m)
         \<and> (\<exists>h. url m = urljoin h \<and> startswith ''/wiki/'' h \<and> CHR '':'' \<notin> set h
                \<and> (''..'' \<notin> set (split CHR ''/'' (url_path h))
                   \<longrightarrow> startswith ''https://en.wikipedia.org/wiki/'' (url m)))"
proof -
  from assms obtain cell where "link_movie cy cell = Some m"
    by (auto simp: row_movie_def Let_def split: option.splits if_splits)
  then show ?thesis
    by (rule link_movie_record)
qed

text \<open>
  Claim C10, as amended. Every record returned has a title that is not empty and a
  reference that is the resolution of a link target which starts with \<open>/wiki/\<close> and
  has no \<open>:\<close> anywhere. The reference begins with \<open>https://en.wikipedia.org/\<close>, and
  with \<open>https://en.wikipedia.org/wiki/\<close> when the path of the target has no segment
  \<open>..\<close>.
\<close>

theorem record_invariant:
  "list_all (\<lambda>m. title m \<noteq> []
                \<and> startswith ''https://en.wikipedia.org/'' (url m)
                \<and> (\<exists>h. url m = urljoin h \<and> startswith ''/wiki/'' h \<and> CHR '':'' \<notin> set h
                       \<and> (''..'' \<notin> set (split CHR ''/'' (url_path h))
                          \<longrightarrow> startswith ''https://en.wikipedia.org/wiki/'' (url m))))
     (get_best_picture_nominations soup)"
  unfolding get_best_picture_nominations_def
proof (rule tables_loop_invariant [where Q = "\<lambda>cy. True"])
  show "title m \<noteq> [] \<and> startswith ''https://en.wikipedia.org/'' (url m)
         \<and> (\<exists>h. url m = urljoin h \<and> startswith ''/wiki/'' h \<and> CHR '':'' \<notin> set h
                \<and> (''..'' \<notin> set (split CHR ''/'' (url_path h))
                   \<longrightarrow> startswith ''https://en.wikipedia.org/wiki/'' (url m)))"
    if "row_movie cy row = Some m" for row cy m
    using that by (rule row_movie_record)
qed simp_all

text \<open>The theorem at a table with one film, whose link has a query and a
  fragment.\<close>

theorem record_invariant_witness:
  "get_best_picture_nominations [wikitable [tr_row [td_cell [a_link ''/wiki/Film?a#b'' ''Film'']]]]
     = [\<lparr>year = None, title = ''Film'', url = ''https://en.wikipedia.org/wiki/Film?a#b''\<rparr>]
   \<and> ''..'' \<notin> set (split CHR ''/'' (url_path ''/wiki/Film?a#b''))
   \<and> startswith ''https://en.wikipedia.org/wiki/'' ''https://en.wikipedia.org/wiki/Film?a#b''
   \<and> list_all (\<lambda>m. title m \<noteq> []
                \<and> startswith ''https://en.wikipedia.org/'' (url m)
                \<and> (\<exists>h. url m = urljoin h \<and> startswith ''/wiki/'' h \<and> CHR '':'' \<notin> set h
                       \<and> (''..'' \<notin> set (split CHR ''/'' (url_path h))
                          \<longrightarrow> startswith ''https://en.wikipedia.org/wiki/'' (url m))))
     (get_best_picture_nominations [wikitable [tr_row [td_cell [a_link ''/wiki/Film?a#b'' ''Film'']]]])"
proof -
  have "get_best_picture_nominations [wikitable [tr_row [td_cell [a_link ''/wiki/Film?a#b'' ''Film'']]]]
     = [\<lparr>year = None, title = ''Film'', url = ''https://en.wikipedia.org/wiki/Film?a#b''\<rparr>]"
    by code_simp
  moreover have "''..'' \<notin> set (split CHR ''/'' (url_path ''/wiki/Film?a#b''))"
    by code_simp
  moreover have
    "startswith ''https://en.wikipedia.org/wiki/'' ''https://en.wikipedia.org/wiki/Film?a#b''"
    by simp
  ultimately show ?thesis
    using record_invariant [of "[wikitable [tr_row [td_cell [a_link ''/wiki/Film?a#b'' ''Film'']]]]"]
    by simp
qed

text \<open>
  Claim C10 as stated fails: this link target starts with \<open>/wiki/\<close> and has no \<open>:\<close>, so
  the row is accepted, and resolving the target removes the segment \<open>..\<close> together
  with \<open>wiki\<close>; the reference does not begin with \<open>https://en.wikipedia.org/wiki/\<close>.
\<close>

theorem dot_segment_counterexample:
  "startswith ''/wiki/'' ''/wiki/../Main_Page''
   \<and> CHR '':'' \<notin> set ''/wiki/../Main_Page''
   \<and> get_best_picture_nominations
        [wikitable [tr_row [td_cell [a_link ''/wiki/../Main_Page'' ''Film'']]]]
     = [\<lparr>year = None, title = ''Film'', url = ''https://en.wikipedia.org/Main_Page''\<rparr>]
   \<and> \<not> startswith ''https://en.wikipedia.org/wiki/'' ''https://en.wikipedia.org/Main_Page''"
  by code_simp

section \<open>The section of a page\<close>

lemma find_plot_section_first:
  "list_all (\<lambda>l. \<not> heading_matches section_name (elem l)) pre \<Longrightarrow>
   heading_matches section_name (elem heading) \<Longrightarrow>
   find_plot_section section_name (pre @ heading # post) = Some heading"
  by (induction pre) auto

lemma find_plot_section_none:
  "list_all (\<lambda>l. \<not> heading_matches section_name (elem l)) elements \<Longrightarrow>
   find_plot_section section_name elements = None"
  by (induction elements) auto

lemma main_heading_not_p: "main_heading e \<Longrightarrow> name e \<noteq> ''p''"
  by (auto simp: main_heading_def)

lemma walk_eq:
  "walk siblings plot_text =
     plot_text @ filter (\<lambda>s. s \<noteq> [])
       (map (get_text_strip '' '')
          (filter (\<lambda>e. name e = ''p'') (takeWhile (\<lambda>e. \<not> main_heading e) siblings)))"
  by (induction siblings arbitrary: plot_text) (auto simp: Let_def)

lemma walk_skip:
  "\<not> main_heading sub \<Longrightarrow> name sub \<noteq> ''p'' \<Longrightarrow>
   walk (xs @ sub # ys) plot_text = walk (xs @ ys) plot_text"
  by (induction xs arbitrary: plot_text) (auto simp: Let_def)

lemma heading_matches_eq:
  "heading_matches section_name element \<longleftrightarrow>
     ((name element = ''div'' \<and> ''mw-heading'' \<in> set (classes element))
        \<or> name element = ''h2'' \<or> name element = ''h3'')
     \<and> contains (lower section_name) (lower (get_text element))"
  by (auto simp: heading_matches_def)

lemma join_not_Nil: "xs \<noteq> [] \<Longrightarrow> hd xs \<noteq> [] \<Longrightarrow> join sep xs \<noteq> []"
  by (induction sep xs rule: join.induct) auto

lemma walk_texts: "list_all (\<lambda>s. s \<noteq> []) plot_text \<Longrightarrow> list_all (\<lambda>s. s \<noteq> []) (walk siblings plot_text)"
  by (auto simp: walk_eq list_all_iff)

lemma extract_plot_from_section_not_Nil:
  assumes "extract_plot_from_section soup section_name = Some text"
  shows "text \<noteq> []"
proof -
  from assms obtain heading where
    joined: "text = join '' '' (walk (next_siblings heading) [])"
    and ne: "walk (next_siblings heading) [] \<noteq> []"
    by (auto simp: extract_plot_from_section_def Let_def split: option.splits if_splits)
  have "list_all (\<lambda>s. s \<noteq> []) (walk (next_siblings heading) [])"
    by (rule walk_texts) simp
  with ne have "hd (walk (next_siblings heading) []) \<noteq> []"
    by (cases "walk (next_siblings heading) []") auto
  with ne show ?thesis
    unfolding joined by (rule join_not_Nil)
qed

text \<open>
  Claim C7. Let a heading be the first element, among the \<open>mw-heading\<close> wrappers and
  the \<open>h2\<close> and \<open>h3\<close> elements of the document in document order, whose text contains
  the label without regard to case. Then the extractor returns the texts of the \<open>p\<close>
  siblings after this heading and before the first following wrapper with an \<open>h2\<close>
  inside or \<open>h2\<close> element, each stripped, the empty ones left out, joined by single
  spaces (and absent when there is none). An \<open>h3\<close> element or a wrapper without \<open>h2\<close>
  on the way neither ends the walk nor adds text.
\<close>

theorem section_boundary:
  assumes found: "find_all_located [''div'', ''h2'', ''h3''] soup = pre @ heading # post"
    and first: "list_all (\<lambda>l. \<not> heading_matches section_name (elem l)) pre"
    and matches: "heading_matches section_name (elem heading)"
  shows
    "extract_plot_from_section soup section_name
       = (let paragraphs = filter (\<lambda>e. name e = ''p'')
                 (takeWhile (\<lambda>e. \<not> main_heading e) (next_siblings heading));
              texts = filter (\<lambda>s. s \<noteq> []) (map (get_text_strip '' '') paragraphs)
          in if texts = [] then None else Some (join '' '' texts))
     \<and> (name sub = ''h3''
          \<or> (name sub = ''div'' \<and> ''mw-heading'' \<in> set (classes sub) \<and> find_tag ''h2'' sub = None)
        \<longrightarrow> walk (xs @ sub # ys) plot_text = walk (xs @ ys) plot_text)
     \<and> (heading_matches section_name element \<longleftrightarrow>
          ((name element = ''div'' \<and> ''mw-heading'' \<in> set (classes element))
             \<or> name element = ''h2'' \<or> name element = ''h3'')
          \<and> contains (lower section_name) (lower (get_text element)))"
proof -
  have "find_plot_section section_name (find_all_located [''div'', ''h2'', ''h3''] soup)
        = Some heading"
    unfolding found using first matches by (rule find_plot_section_first)
  then have result: "extract_plot_from_section soup section_name
       = (let paragraphs = filter (\<lambda>e. name e = ''p'')
                 (takeWhile (\<lambda>e. \<not> main_heading e) (next_siblings heading));
              texts = filter (\<lambda>s. s \<noteq> []) (map (get_text_strip '' '') paragraphs)
          in if texts = [] then None else Some (join '' '' texts))"
    by (simp add: extract_plot_from_section_def walk_eq Let_def)
  have sub: "walk (xs @ sub # ys) plot_text = walk (xs @ ys) plot_text"
    if "name sub = ''h3''
          \<or> (name sub = ''div'' \<and> ''mw-heading'' \<in> set (classes sub) \<and> find_tag ''h2'' sub = None)"
  proof (rule walk_skip)
    show "\<not> main_heading sub"
      using that by (auto simp: main_heading_def)
    show "name sub \<noteq> ''p''"
      using that by auto
  qed
  from result sub heading_matches_eq [of section_name element] show ?thesis
    by blast
qed

text \<open>The theorem at a page with the sections \<open>Plot\<close> (with a sub-heading) and
  \<open>Cast\<close>: the two paragraphs of \<open>Plot\<close> are returned.\<close>

theorem section_boundary_witness:
  "extract_plot_from_section
     [heading_wrapper [h2_heading ''Plot''],
      paragraph_of '' One. '',
      heading_wrapper [h3_heading ''Part two''],
      paragraph_of ''Two.'',
      heading_wrapper [h2_heading ''Cast''],
      paragraph_of ''Three.''] ''Plot''
   = Some ''One. Two.''"
proof -
  let ?plot = "heading_wrapper [h2_heading ''Plot'']"
  let ?sub = "heading_wrapper [h3_heading ''Part two'']"
  let ?cast = "heading_wrapper [h2_heading ''Cast'']"
  let ?rest = "[paragraph_of '' One. '', ?sub, paragraph_of ''Two.'', ?cast, paragraph_of ''Three.'']"
  let ?soup = "?plot # ?rest"
  let ?heading = "([], ?plot, ?rest) :: located"
  have found: "find_all_located [''div'', ''h2'', ''h3''] ?soup
      = [] @ ?heading # tl (find_all_located [''div'', ''h2'', ''h3''] ?soup)"
    by code_simp
  have first: "list_all (\<lambda>l. \<not> heading_matches ''Plot'' (elem l)) []"
    by simp
  have matches: "heading_matches ''Plot'' (elem ?heading)"
    by code_simp
  have "(let paragraphs = filter (\<lambda>e. name e = ''p'')
                 (takeWhile (\<lambda>e. \<not> main_heading e) (next_siblings ?heading));
              texts = filter (\<lambda>s. s \<noteq> []) (map (get_text_strip '' '') paragraphs)
          in if texts = [] then None else Some (join '' '' texts)) = Some ''One. Two.''"
    by code_simp
  with section_boundary [OF found first matches] show ?thesis
    by simp
qed

text \<open>
  Claim C8. The extractor returns absent, a value and not an exception, when no heading
  matches the label and when the walk after the matching heading collects no text.
  \<open>extract_plot\<close> calls the extractor with \<open>Plot\<close>, and with \<open>Synopsis\<close> exactly when the
  first call returned absent; its result is the text of \<open>Plot\<close> when there is one and
  the result for \<open>Synopsis\<close> otherwise, so a page with a \<open>Synopsis\<close> section and no
  \<open>Plot\<close> heading gives the text of that section.
\<close>

theorem absence_and_fallback:
  "(list_all (\<lambda>l. \<not> heading_matches section_name (elem l))
        (find_all_located [''div'', ''h2'', ''h3''] soup)
      \<longrightarrow> extract_plot_from_section soup section_name = None)
   \<and> (find_plot_section section_name (find_all_located [''div'', ''h2'', ''h3''] soup)
          = Some heading
        \<and> walk (next_siblings heading) [] = []
      \<longrightarrow> extract_plot_from_section soup section_name = None)
   \<and> fst (extract_plot soup)
       = (if extract_plot_from_section soup ''Plot'' = None
          then [''Plot'', ''Synopsis''] else [''Plot''])
   \<and> snd (extract_plot soup)
       = (case extract_plot_from_section soup ''Plot'' of
            None \<Rightarrow> extract_plot_from_section soup ''Synopsis''
          | Some text \<Rightarrow> Some text)
   \<and> (list_all (\<lambda>l. \<not> heading_matches ''Plot'' (elem l))
        (find_all_located [''div'', ''h2'', ''h3''] soup)
        \<and> extract_plot_from_section soup ''Synopsis'' = Some synopsis
      \<longrightarrow> snd (extract_plot soup) = Some synopsis)"
proof -
  have none: "extract_plot_from_section soup name = None"
    if "list_all (\<lambda>l. \<not> heading_matches name (elem l))
        (find_all_located [''div'', ''h2'', ''h3''] soup)" for name
    using find_plot_section_none [OF that] by (simp add: extract_plot_from_section_def)
  have empty: "extract_plot_from_section soup section_name = None"
    if "find_plot_section section_name (find_all_located [''div'', ''h2'', ''h3''] soup)
          = Some heading" "walk (next_siblings heading) [] = []"
    using that by (simp add: extract_plot_from_section_def)
  have calls: "fst (extract_plot soup)
       = (if extract_plot_from_section soup ''Plot'' = None
          then [''Plot'', ''Synopsis''] else [''Plot''])"
    by (cases "extract_plot_from_section soup ''Plot''")
      (auto simp: extract_plot_def Let_def falsy_def dest: extract_plot_from_section_not_Nil)
  have result: "snd (extract_plot soup)
       = (case extract_plot_from_section soup ''Plot'' of
            None \<Rightarrow> extract_plot_from_section soup ''Synopsis''
          | Some text \<Rightarrow> Some text)"
    by (cases "extract_plot_from_section soup ''Plot''";
        cases "extract_plot_from_section soup ''Synopsis''")
      (auto simp: extract_plot_def Let_def falsy_def dest: extract_plot_from_section_not_Nil)
  have synopsis: "snd (extract_plot soup) = Some synopsis"
    if "list_all (\<lambda>l. \<not> heading_matches ''Plot'' (elem l))
        (find_all_located [''div'', ''h2'', ''h3''] soup)"
      "extract_plot_from_section soup ''Synopsis'' = Some synopsis"
    using none [OF that(1)] that(2) by (simp add: result)
  from none [of section_name] empty calls result synopsis show ?thesis
    by blast
qed

text \<open>The theorem at a page with a \<open>Synopsis\<close> only, at a page with both sections,
  at a \<open>Plot\<close> heading without paragraphs and at a page without \<open>Plot\<close>.\<close>

theorem absence_and_fallback_witness:
  "extract_plot [h2_heading ''Synopsis'', paragraph_of ''A story.'', h2_heading ''Cast'']
     = ([''Plot'', ''Synopsis''], Some ''A story.'')
   \<and> extract_plot [h2_heading ''Plot'', paragraph_of ''A plot.'',
                   h2_heading ''Synopsis'', paragraph_of ''A story.'']
     = ([''Plot''], Some ''A plot.'')
   \<and> extract_plot_from_section [h2_heading ''Plot'', h2_heading ''Cast'', paragraph_of ''Actors.'']
        ''Plot'' = None
   \<and> extract_plot_from_section [h2_heading ''Cast'', paragraph_of ''Actors.''] ''Plot'' = None"
proof -
  let ?s1 = "[h2_heading ''Synopsis'', paragraph_of ''A story.'', h2_heading ''Cast'']"
  let ?s2 = "[h2_heading ''Plot'', paragraph_of ''A plot.'',
              h2_heading ''Synopsis'', paragraph_of ''A story.'']"
  let ?s3 = "[h2_heading ''Plot'', h2_heading ''Cast'', paragraph_of ''Actors.'']"
  let ?s4 = "[h2_heading ''Cast'', paragraph_of ''Actors.'']"
  let ?h3 = "([], h2_heading ''Plot'', [h2_heading ''Cast'', paragraph_of ''Actors.'']) :: located"
  have no_plot1: "list_all (\<lambda>l. \<not> heading_matches ''Plot'' (elem l))
        (find_all_located [''div'', ''h2'', ''h3''] ?s1)"
    by code_simp
  have syn1: "extract_plot_from_section ?s1 ''Synopsis'' = Some ''A story.''"
    by code_simp
  have plot1: "extract_plot_from_section ?s1 ''Plot'' = None"
    using absence_and_fallback [of "''Plot''" ?s1] no_plot1 by blast
  have plot2: "extract_plot_from_section ?s2 ''Plot'' = Some ''A plot.''"
    by code_simp
  have found3: "find_plot_section ''Plot'' (find_all_located [''div'', ''h2'', ''h3''] ?s3) = Some ?h3"
    by code_simp
  have walk3: "walk (next_siblings ?h3) [] = []"
    by code_simp
  have no_plot4: "list_all (\<lambda>l. \<not> heading_matches ''Plot'' (elem l))
        (find_all_located [''div'', ''h2'', ''h3''] ?s4)"
    by code_simp
  have "fst (extract_plot ?s1) = [''Plot'', ''Synopsis'']" "snd (extract_plot ?s1) = Some ''A story.''"
    using absence_and_fallback [of "''Plot''" ?s1 _ "''A story.''"] no_plot1 syn1 plot1
    by simp_all
  then have r1: "extract_plot ?s1 = ([''Plot'', ''Synopsis''], Some ''A story.'')"
    by (simp add: prod_eq_iff)
  have "fst (extract_plot ?s2) = [''Plot'']" "snd (extract_plot ?s2) = Some ''A plot.''"
    using absence_and_fallback [of "''Plot''" ?s2] plot2
    by simp_all
  then have r2: "extract_plot ?s2 = ([''Plot''], Some ''A plot.'')"
    by (simp add: prod_eq_iff)
  have r3: "extract_plot_from_section ?s3 ''Plot'' = None"
    using absence_and_fallback [of "''Plot''" ?s3 ?h3] found3 walk3 by blast
  have r4: "extract_plot_from_section ?s4 ''Plot'' = None"
    using absence_and_fallback [of "''Plot''" ?s4] no_plot4 by blast
  from r1 r2 r3 r4 show ?thesis
    by (simp only: simp_thms)
qed

section \<open>Determinism\<close>



end
